theory Spec2Isabelle
  imports Main "HOL-Library.Sublist" "HOL-Library.Multiset" "HOL-Library.Word"
begin

section \<open>JavaScript strings\<close>

text \<open>
  A string is the sequence of its UTF-8 bytes. \<open>toLowerCase\<close> and \<open>toUpperCase\<close>
  are those of ECMAScript on ASCII text (\<open>isAscii\<close>), where only the ASCII letters
  change. A byte outside ASCII is left as it is here, which ECMAScript does not promise
  (U+212A becomes k, U+017F becomes S): what depends on the case mapping of a whole
  string is stated for ASCII text. The backend compares lower-cased text with
  \<open>localhost\<close>, with addresses and with the file extensions only; no character outside
  ASCII has a lower-case form made of their letters (k is not among them, and U+0130
  becomes i followed by a combining dot), so those tests are the same on every text.
\<close>

definition isAscii :: "string \<Rightarrow> bool" where
  "isAscii s = list_all (\<lambda>c. (of_char c :: nat) < 128) s"

definition lowerChar :: "char \<Rightarrow> char" where
  "lowerChar c = (let n = (of_char c :: nat) in if 65 \<le> n \<and> n \<le> 90 then char_of (n + 32) else c)"

definition upperChar :: "char \<Rightarrow> char" where
  "upperChar c = (let n = (of_char c :: nat) in if 97 \<le> n \<and> n \<le> 122 then char_of (n - 32) else c)"

definition toLowerCase :: "string \<Rightarrow> string" where
  "toLowerCase s = map lowerChar s"

definition toUpperCase :: "string \<Rightarrow> string" where
  "toUpperCase s = map upperChar s"

text \<open>\<open>s.split(c)\<close> for a one-character separator: never the empty array.\<close>

fun split :: "char \<Rightarrow> string \<Rightarrow> string list" where
  "split c [] = [[]]"
| "split c (x # xs) =
     (if x = c then [] # split c xs
      else (case split c xs of [] \<Rightarrow> [[x]] | p # ps \<Rightarrow> (x # p) # ps))"

text \<open>\<open>parts.join(sep)\<close>.\<close>

fun join :: "string \<Rightarrow> string list \<Rightarrow> string" where
  "join sep [] = []"
| "join sep [p] = p"
| "join sep (p # q # ps) = p @ sep @ join sep (q # ps)"

text \<open>\<open>parts.slice(-k)\<close>: the last \<open>k\<close> elements, all of them when there are fewer.\<close>

definition sliceLast :: "nat \<Rightarrow> 'a list \<Rightarrow> 'a list" where
  "sliceLast k xs = drop (length xs - k) xs"

text \<open>\<open>parts.pop()\<close> on the result of a split, which is never empty.\<close>

definition pop :: "string list \<Rightarrow> string" where
  "pop parts = (case parts of [] \<Rightarrow> [] | _ \<Rightarrow> last parts)"

text \<open>
  \<open>anywhere P s\<close>: some suffix of \<open>s\<close> satisfies \<open>P\<close>; a regular expression
  without anchors is tried at every position of the subject.
\<close>

primrec anywhere :: "(string \<Rightarrow> bool) \<Rightarrow> string \<Rightarrow> bool" where
  "anywhere P [] = P []"
| "anywhere P (c # cs) = (P (c # cs) \<or> anywhere P cs)"

text \<open>\<open>s.includes(w)\<close>, and \<open>/w/.test(s)\<close> for a pattern that is a literal word.\<close>

definition includesStr :: "string \<Rightarrow> string \<Rightarrow> bool" where
  "includesStr s w = anywhere (prefix w) s"

definition startsWith :: "string \<Rightarrow> string \<Rightarrow> bool" where
  "startsWith s w = prefix w s"

text \<open>\<open>xs.some(P)\<close> and \<open>xs.includes(x)\<close> on arrays.\<close>

definition some :: "('a \<Rightarrow> bool) \<Rightarrow> 'a list \<Rightarrow> bool" where
  "some P xs = list_ex P xs"

definition arrayIncludes :: "'a list \<Rightarrow> 'a \<Rightarrow> bool" where
  "arrayIncludes xs x = (x \<in> set xs)"

text \<open>
  \<open>String(n)\<close> for an integer below \<open>10^21\<close> in absolute value: its decimal digits,
  with a sign when negative. From \<open>10^21\<close> on ECMAScript prints an exponent; such
  numbers are left out by \<open>plainDecimal\<close> wherever \<open>String\<close> matters.
\<close>

definition digitChar :: "nat \<Rightarrow> char" where
  "digitChar d = ''0123456789'' ! d"

function decimal :: "nat \<Rightarrow> string" where
  "decimal n = (if n < 10 then [digitChar n] else decimal (n div 10) @ [digitChar (n mod 10)])"
  by pat_completeness auto
termination
  by (relation "measure id") auto

declare decimal.simps [simp del]

definition String :: "int \<Rightarrow> string" where
  "String i = (if i < 0 then CHR ''-'' # decimal (nat (- i)) else decimal (nat i))"

section \<open>RequestProcessor (capture side)\<close>

text \<open>\<open>CONFIG.ACTION_WORDS\<close>, as listed in Config.js (\<open>api\<close> is there twice).\<close>

definition ACTION_WORDS :: "string list" where
  "ACTION_WORDS =
     [''login'', ''auth'', ''user'', ''checkout'', ''order'',
      ''signup'', ''payment'', ''api'', ''api'', ''profile'',
      ''account'', ''transaction'', ''purchase'']"

definition getRootDomain :: "string \<Rightarrow> string" where
  "getRootDomain hostname =
     (let parts = split CHR ''.'' hostname
      in if length parts \<le> 2 then hostname else join ''.'' (sliceLast 2 parts))"

definition isSameDomain :: "string \<Rightarrow> string \<Rightarrow> bool" where
  "isSameDomain hostname1 hostname2 = (getRootDomain hostname1 = getRootDomain hostname2)"

text \<open>\<open>hasActionWords\<close>: the empty path is falsy and answers false at once.\<close>

definition hasActionWords :: "string \<Rightarrow> bool" where
  "hasActionWords path =
     (if path = [] then False
      else (let pathLower = toLowerCase path in some (\<lambda>word. includesStr pathLower word) ACTION_WORDS))"

text \<open>\<open>isStateChangingMethod\<close>: the empty method is falsy.\<close>

definition isStateChangingMethod :: "string \<Rightarrow> bool" where
  "isStateChangingMethod method =
     (method \<noteq> [] \<and> arrayIncludes [''POST'', ''PUT'', ''DELETE'', ''PATCH''] (toUpperCase method))"

text \<open>
  The regular expressions of \<open>classifyRequest\<close>. All carry the flag \<open>i\<close>; their
  patterns are ASCII, so the test is run on the lower-cased path.
  \<^item> \<open>/login|logout|signin|signup|auth|session/i\<close>
  \<^item> \<open>/\/api\/|\/v\d+\/|\/graphql/i\<close>
  \<^item> \<open>/analytics|tracking|telemetry|beacon|pixel|metric/i\<close>
\<close>

definition isDigit :: "char \<Rightarrow> bool" where
  "isDigit c = (let n = (of_char c :: nat) in 48 \<le> n \<and> n \<le> 57)"

text \<open>\<open>\/v\d+\/\<close> at the start of \<open>s\<close>: the digits are taken greedily; a shorter run
  of digits would be followed by a digit and not by the slash.\<close>

definition versionPrefix :: "string \<Rightarrow> bool" where
  "versionPrefix s =
     (case s of
        a # b # rest \<Rightarrow>
          a = CHR ''/'' \<and> b = CHR ''v'' \<and> takeWhile isDigit rest \<noteq> [] \<and>
          (case dropWhile isDigit rest of [] \<Rightarrow> False | c # _ \<Rightarrow> c = CHR ''/'')
      | _ \<Rightarrow> False)"

definition authPattern :: "string \<Rightarrow> bool" where
  "authPattern path =
     (let p = toLowerCase path
      in includesStr p ''login'' \<or> includesStr p ''logout'' \<or> includesStr p ''signin'' \<or>
         includesStr p ''signup'' \<or> includesStr p ''auth'' \<or> includesStr p ''session'')"

definition apiPattern :: "string \<Rightarrow> bool" where
  "apiPattern path =
     (let p = toLowerCase path
      in includesStr p ''/api/'' \<or> anywhere versionPrefix p \<or> includesStr p ''/graphql'')"

definition infraPattern :: "string \<Rightarrow> bool" where
  "infraPattern path =
     (let p = toLowerCase path
      in includesStr p ''analytics'' \<or> includesStr p ''tracking'' \<or> includesStr p ''telemetry'' \<or>
         includesStr p ''beacon'' \<or> includesStr p ''pixel'' \<or> includesStr p ''metric'')"

text \<open>\<open>statusCode && String(statusCode).startsWith(d)\<close>: an absent status and the
  status 0 are falsy.\<close>

definition statusStartsWith :: "int option \<Rightarrow> string \<Rightarrow> bool" where
  "statusStartsWith statusCode d =
     (case statusCode of None \<Rightarrow> False | Some n \<Rightarrow> n \<noteq> 0 \<and> startsWith (String n) d)"

text \<open>
  The status codes of HTTP have three digits; an absent status and the status 0 stand for a
  request that failed before any answer. \<open>is5xx\<close> is the class of server errors.
\<close>

definition plainDecimal :: "int option \<Rightarrow> bool" where
  "plainDecimal statusCode =
     (case statusCode of None \<Rightarrow> True | Some n \<Rightarrow> \<bar>n\<bar> < 10 ^ 21)"

definition validStatus :: "int option \<Rightarrow> bool" where
  "validStatus statusCode =
     (case statusCode of None \<Rightarrow> True | Some n \<Rightarrow> n = 0 \<or> (100 \<le> n \<and> n \<le> 999))"

definition is5xx :: "int option \<Rightarrow> bool" where
  "is5xx statusCode = (case statusCode of None \<Rightarrow> False | Some n \<Rightarrow> 500 \<le> n \<and> n \<le> 599)"

record classification =
  tags :: "string list"
  score :: nat
  critical :: bool

text \<open>\<open>tags.push(t)\<close> under a condition.\<close>

definition pushIf :: "bool \<Rightarrow> string \<Rightarrow> string list \<Rightarrow> string list" where
  "pushIf b t ts = (if b then ts @ [t] else ts)"

definition classifyTags :: "string \<Rightarrow> string \<Rightarrow> int option \<Rightarrow> bool \<Rightarrow> string list" where
  "classifyTags method path statusCode isPrimaryContext =
     (let ts = pushIf (statusStartsWith statusCode ''5'') ''server-error'' [];
          ts = pushIf (statusStartsWith statusCode ''4'') ''client-error'' ts;
          ts = pushIf (authPattern path) ''authentication'' ts;
          ts = pushIf (apiPattern path) ''api-endpoint'' ts;
          ts = pushIf (isStateChangingMethod method) ''state-change'' ts;
          ts = pushIf (infraPattern path) ''infrastructure'' ts;
          ts = pushIf (hasActionWords path) ''business-logic'' ts
      in if isPrimaryContext then ts @ [''primary-context''] else ts @ [''cross-origin''])"

definition classifyScore :: "string \<Rightarrow> string \<Rightarrow> int option \<Rightarrow> string list \<Rightarrow> nat" where
  "classifyScore method path statusCode ts =
     (let score = 0;
          score = (if isStateChangingMethod method then score + 30 else score);
          score = (if hasActionWords path then score + 25 else score);
          score = (if arrayIncludes ts ''authentication'' then score + 20 else score);
          score = (if arrayIncludes ts ''api-endpoint'' then score + 15 else score);
          score = (if statusStartsWith statusCode ''5'' then score + 10 else score)
      in score)"

text \<open>\<open>classifyRequest(method, normalizedPath, hostname, statusCode, isPrimaryContext)\<close>;
  the path is already a string, so \<open>String(normalizedPath)\<close> is the path itself and the
  empty path stays empty.\<close>

definition classifyRequest ::
  "string \<Rightarrow> string \<Rightarrow> string \<Rightarrow> int option \<Rightarrow> bool \<Rightarrow> classification" where
  "classifyRequest method normalizedPath hostname statusCode isPrimaryContext =
     (let path = normalizedPath;
          ts = classifyTags method path statusCode isPrimaryContext;
          sc = classifyScore method path statusCode ts
      in \<lparr> tags = ts, score = sc, critical = (sc \<ge> 50) \<rparr>)"

text \<open>
  The score in the words of the specification: 30 for a state-changing method, 25 for an
  action word, 20 and 15 for the two tags, 10 for a status in 500..599.
\<close>

definition specifiedScore :: "string \<Rightarrow> string \<Rightarrow> int option \<Rightarrow> string list \<Rightarrow> nat" where
  "specifiedScore method path statusCode ts =
     (if isStateChangingMethod method then 30 else 0) +
     (if hasActionWords path then 25 else 0) +
     (if ''authentication'' \<in> set ts then 20 else 0) +
     (if ''api-endpoint'' \<in> set ts then 15 else 0) +
     (if is5xx statusCode then 10 else 0)"

section \<open>ExtensionFilter (backend)\<close>

definition IGNORE_EXTENSIONS :: "string list" where
  "IGNORE_EXTENSIONS =
     [''jpg'', ''jpeg'', ''png'', ''gif'', ''svg'', ''webp'',
      ''css'',
      ''woff'', ''woff2'', ''ttf'', ''eot'', ''otf'',
      ''mp4'', ''mp3'', ''webm'', ''ogg'', ''m4a'', ''aac'', ''flac'',
      ''ico'', ''map'',
      ''zip'', ''tar'', ''gz'', ''7z'', ''rar'',
      ''pdf'', ''doc'', ''docx'', ''xls'', ''xlsx'']"

text \<open>
  \<open>NOISE_PATTERNS\<close>, in the order of the source. Each pattern is a literal word, or a
  word with one optional letter (\<open>/\/images?\//\<close>, \<open>/\/fonts?\//\<close>), and has no flag.
\<close>

definition NOISE_PATTERNS :: "(string \<Rightarrow> bool) list" where
  "NOISE_PATTERNS =
     [\<lambda>p. includesStr p ''/xjs/'',
      \<lambda>p. includesStr p ''/_/js/'',
      \<lambda>p. includesStr p ''/collect'',
      \<lambda>p. includesStr p ''/log?'',
      \<lambda>p. includesStr p ''$rpc/google.internal'',
      \<lambda>p. includesStr p ''/gen_204'',
      \<lambda>p. includesStr p ''/fp_204'',
      \<lambda>p. includesStr p ''/complete/search'',
      \<lambda>p. includesStr p ''/js/'',
      \<lambda>p. includesStr p ''/css/'',
      \<lambda>p. includesStr p ''/image/'' \<or> includesStr p ''/images/'',
      \<lambda>p. includesStr p ''/static/'',
      \<lambda>p. includesStr p ''/assets/'',
      \<lambda>p. includesStr p ''/font/'' \<or> includesStr p ''/fonts/'']"

definition pathExtension :: "string \<Rightarrow> string" where
  "pathExtension normalizedPath = toLowerCase (pop (split CHR ''.'' normalizedPath))"

definition matchesNoise :: "string \<Rightarrow> bool" where
  "matchesNoise normalizedPath = some (\<lambda>pattern. pattern normalizedPath) NOISE_PATTERNS"

definition shouldIgnore :: "string \<Rightarrow> string \<Rightarrow> string \<Rightarrow> bool" where
  "shouldIgnore method hostname normalizedPath =
     (let ext = pathExtension normalizedPath
      in if arrayIncludes IGNORE_EXTENSIONS ext then True
         else if matchesNoise normalizedPath then True
         else False)"

text \<open>
  The ingest route \<open>POST /api/logs\<close> tests the host name itself, before it calls
  \<open>shouldIgnore\<close>:
  \<^verbatim>\<open>hostnameLower.includes('localhost') || hostnameLower.includes('127.0.0.1') ||
  hostnameLower.includes('[::1]') || hostnameLower === '0.0.0.0'\<close>
\<close>

definition isLocalHost :: "string \<Rightarrow> bool" where
  "isLocalHost hostname =
     (let hostnameLower = toLowerCase hostname
      in includesStr hostnameLower ''localhost'' \<or> includesStr hostnameLower ''127.0.0.1'' \<or>
         includesStr hostnameLower ''[::1]'' \<or> hostnameLower = ''0.0.0.0'')"

text \<open>
  The head of the handler of \<open>POST /api/logs\<close>, up to the point where it computes the
  fingerprint: three early returns, in the order of the source. A required field is
  missing when the body has none, and an empty string is falsy like a missing one.
\<close>

datatype admission = BadRequest | Ignored | Proceed

definition routeAdmission :: "string option \<Rightarrow> string option \<Rightarrow> string option \<Rightarrow> admission" where
  "routeAdmission hostname method normalizedPath =
     (case (hostname, method, normalizedPath) of
        (Some h, Some m, Some p) \<Rightarrow>
          if h = [] \<or> m = [] \<or> p = [] then BadRequest
          else if isLocalHost h then Ignored
          else if shouldIgnore m h p then Ignored
          else Proceed
      | _ \<Rightarrow> BadRequest)"

section \<open>Fingerprints\<close>

text \<open>
  Both sides build the template string \<open>`${method}:${hostname}:${normalizedPath}`\<close>,
  encode it as UTF-8 and hash it with the platform's SHA-256 (Web Crypto in the extension,
  \<open>crypto.createHash\<close> in the backend). The hash function belongs to the platform and
  is a parameter here. A string is its UTF-8 byte sequence, so the encoder maps each
  character to its byte.
\<close>

type_synonym byte = "8 word"

definition encodeUtf8 :: "string \<Rightarrow> byte list" where
  "encodeUtf8 s = map (\<lambda>c. of_char c) s"

definition hexChar :: "nat \<Rightarrow> char" where
  "hexChar d = ''0123456789abcdef'' ! d"

text \<open>\<open>b.toString(16)\<close> for a non-negative integer: no leading zero.\<close>

function toString16 :: "nat \<Rightarrow> string" where
  "toString16 n = (if n < 16 then [hexChar n] else toString16 (n div 16) @ [hexChar (n mod 16)])"
  by pat_completeness auto
termination
  by (relation "measure id") auto

declare toString16.simps [simp del]

text \<open>\<open>s.padStart(k, c)\<close> for a one-character filler.\<close>

definition padStart :: "nat \<Rightarrow> char \<Rightarrow> string \<Rightarrow> string" where
  "padStart k c s = replicate (k - length s) c @ s"

text \<open>\<open>digest('hex')\<close> of Node: two lower-case hexadecimal digits for each byte, the
  high nibble first.\<close>

definition digestHex :: "byte list \<Rightarrow> string" where
  "digestHex bs = concat (map (\<lambda>b. [hexChar (unat b div 16), hexChar (unat b mod 16)]) bs)"

text \<open>\<open>FingerprintEngine.generateFingerprint\<close> (extension).\<close>

definition FingerprintEngine_generateFingerprint ::
  "(byte list \<Rightarrow> byte list) \<Rightarrow> string \<Rightarrow> string \<Rightarrow> string \<Rightarrow> string" where
  "FingerprintEngine_generateFingerprint sha256 method hostname normalizedPath =
     (let combined = method @ '':'' @ hostname @ '':'' @ normalizedPath;
          data = encodeUtf8 combined;
          hashArray = sha256 data
      in concat (map (\<lambda>b. padStart 2 CHR ''0'' (toString16 (unat b))) hashArray))"

text \<open>\<open>ExtensionFilter.generateFingerprint\<close> (backend).\<close>

definition ExtensionFilter_generateFingerprint ::
  "(byte list \<Rightarrow> byte list) \<Rightarrow> string \<Rightarrow> string \<Rightarrow> string \<Rightarrow> string" where
  "ExtensionFilter_generateFingerprint sha256 method hostname normalizedPath =
     (let combined = method @ '':'' @ hostname @ '':'' @ normalizedPath
      in digestHex (sha256 (encodeUtf8 combined)))"

definition isLowerHex :: "char \<Rightarrow> bool" where
  "isLowerHex c = (c \<in> set ''0123456789abcdef'')"

section \<open>FingerprintEngine: the session fingerprint cache\<close>

record fp_data =
  firstSeen :: int
  count :: nat

text \<open>
  A JavaScript \<open>Map\<close> keeps its entries in insertion order: a list of pairs with
  distinct keys. \<open>set\<close> on a present key replaces the value where it stands, on an
  absent key it appends.
\<close>

type_synonym cache = "(string \<times> fp_data) list"

definition mapHas :: "cache \<Rightarrow> string \<Rightarrow> bool" where
  "mapHas m k = (k \<in> fst ` set m)"

definition mapSet :: "string \<Rightarrow> fp_data \<Rightarrow> cache \<Rightarrow> cache" where
  "mapSet k v m =
     (if mapHas m k then map (\<lambda>(k', v'). if k' = k then (k', v) else (k', v')) m
      else m @ [(k, v)])"

definition SESSION_FINGERPRINT_LIMIT :: nat where
  "SESSION_FINGERPRINT_LIMIT = 1000"

text \<open>
  \<open>pruneOldFingerprints\<close>. \<open>Array.prototype.sort\<close> is stable; the comparator
  \<open>(a, b) => b[1].firstSeen - a[1].firstSeen\<close> orders by \<open>firstSeen\<close>, newest first.
\<close>

definition sortNewestFirst :: "cache \<Rightarrow> cache" where
  "sortNewestFirst m = sort_key (\<lambda>(fp, d). - firstSeen d) m"

definition pruneOldFingerprints :: "nat \<Rightarrow> cache \<Rightarrow> cache" where
  "pruneOldFingerprints maxFingerprints m =
     (if length m > maxFingerprints
      then (let entries = take maxFingerprints (sortNewestFirst m)
            in foldl (\<lambda>acc (fp, d). mapSet fp d acc) [] entries)
      else m)"

text \<open>
  \<open>updateFingerprint\<close>; \<open>now\<close> is the value of \<open>Date.now()\<close>. Its first
  statement, the \<open>if\<close> that records the occurrence, is \<open>recordOccurrence\<close>:
  \<open>cached.count++\<close> changes the entry where it stands.
\<close>

definition recordOccurrence :: "string \<Rightarrow> int \<Rightarrow> cache \<Rightarrow> cache" where
  "recordOccurrence fp now m =
     (if \<not> mapHas m fp then mapSet fp \<lparr> firstSeen = now, count = 1 \<rparr> m
      else map (\<lambda>(k, d). if k = fp then (k, d\<lparr> count := count d + 1 \<rparr>) else (k, d)) m)"

definition updateFingerprint :: "nat \<Rightarrow> string \<Rightarrow> int \<Rightarrow> cache \<Rightarrow> cache" where
  "updateFingerprint maxFingerprints fp now m =
     pruneOldFingerprints maxFingerprints (recordOccurrence fp now m)"

text \<open>The cache after a run of calls, each with its fingerprint and its clock value.\<close>

fun updateAll :: "nat \<Rightarrow> (string \<times> int) list \<Rightarrow> cache \<Rightarrow> cache" where
  "updateAll maxFingerprints [] m = m"
| "updateAll maxFingerprints ((fp, now) # calls) m =
     updateAll maxFingerprints calls (updateFingerprint maxFingerprints fp now m)"

section \<open>LogStore (backend)\<close>

text \<open>
  A log entry as the ingest route builds it (\<open>httpMethod\<close> is its property
  \<open>method\<close>); \<open>receivedAt\<close> and \<open>lastPatched\<close> are the two properties that
  \<open>LogStore.add\<close> itself writes, absent until then.
\<close>

record log_entry =
  fingerprint :: string
  hostname :: string
  httpMethod :: string
  normalizedPath :: string
  queryKeys :: "string list"
  statusCodes :: "int list"
  discoveryCount :: int
  timestamp :: int
  receivedAt :: "int option"
  lastPatched :: "int option"

text \<open>
  \<open>Object.assign(target, source)\<close> copies every property the source has onto the target:
  the eight fields of an entry always, the two stamps when the source carries them.
\<close>

definition Object_assign :: "log_entry \<Rightarrow> log_entry \<Rightarrow> log_entry" where
  "Object_assign target source =
     source\<lparr> receivedAt := (case receivedAt source of Some t \<Rightarrow> Some t | None \<Rightarrow> receivedAt target),
             lastPatched := (case lastPatched source of Some t \<Rightarrow> Some t | None \<Rightarrow> lastPatched target) \<rparr>"

text \<open>
  The durable file: absent; present but not readable as JSON (\<open>readFileSync\<close> or
  \<open>JSON.parse\<close> throws); JSON that is not an array; or an array, whose elements are
  entries or \<open>null\<close>. \<open>JSON.stringify\<close> followed by \<open>JSON.parse\<close> gives the
  entries back, so the file holds the entries themselves.
\<close>

datatype disk = Absent | Unparseable | NotArray | Stored "log_entry option list"

datatype message =
    Loaded nat
  | NotFoundCreating
  | ErrorLoading
  | FailedToInitialize
  | ErrorSaving
  | ErrorSavingSync
  | ErrorSaveNow

text \<open>
  The store with its surroundings: \<open>timers\<close> counts the \<open>setTimeout\<close> callbacks that are
  armed and have not fired, \<open>attempts\<close> the calls of \<open>writeFileSync\<close> and \<open>writes\<close>
  those that succeeded; \<open>console\<close> is what was logged.
\<close>

record store =
  logs :: "log_entry list"
  fingerprintIndex :: "string \<rightharpoonup> nat"
  saveScheduled :: bool
  savePending :: bool
  timers :: nat
  logsFile :: disk
  attempts :: nat
  writes :: nat
  console :: "message list"

definition SAVE_DEBOUNCE_MS :: nat where
  "SAVE_DEBOUNCE_MS = 5000"

text \<open>A call returns or throws; either way the store has changed up to that point.\<close>

datatype outcome = Returned store | Threw store

text \<open>The file system decides for each call of \<open>writeFileSync\<close>, by its number,
  whether it succeeds.\<close>

type_synonym filesystem = "nat \<Rightarrow> bool"

definition writeFileSync :: "filesystem \<Rightarrow> store \<Rightarrow> outcome" where
  "writeFileSync fs s =
     (if fs (attempts s)
      then Returned (s\<lparr> logsFile := Stored (map Some (logs s)),
                        attempts := attempts s + 1, writes := writes s + 1 \<rparr>)
      else Threw (s\<lparr> attempts := attempts s + 1 \<rparr>))"

definition saveSync :: "filesystem \<Rightarrow> store \<Rightarrow> outcome" where
  "saveSync fs s =
     (case writeFileSync fs s of
        Returned s' \<Rightarrow> Returned s'
      | Threw s' \<Rightarrow> Threw (s'\<lparr> console := console s' @ [ErrorSavingSync] \<rparr>))"

text \<open>The \<open>forEach\<close> of \<open>load\<close>: an entry with an empty (falsy) fingerprint is skipped.\<close>

fun rebuildIndex :: "log_entry list \<Rightarrow> nat \<Rightarrow> (string \<rightharpoonup> nat) \<Rightarrow> (string \<rightharpoonup> nat)" where
  "rebuildIndex [] index idx = idx"
| "rebuildIndex (log # rest) index idx =
     rebuildIndex rest (Suc index)
       (if fingerprint log \<noteq> [] then idx(fingerprint log \<mapsto> index) else idx)"

text \<open>
  The \<open>try\<close> block of \<open>load\<close>. Reading \<open>log.fingerprint\<close> of a \<open>null\<close> element
  throws a TypeError; what the block had assigned to \<open>logs\<close> and to the index before that
  is overwritten by the handler, so the state at the throw is left as it was.
\<close>

definition loadTry :: "filesystem \<Rightarrow> store \<Rightarrow> outcome" where
  "loadTry fs s =
     (case logsFile s of
        Absent \<Rightarrow>
          saveSync fs (s\<lparr> console := console s @ [NotFoundCreating],
                          logs := [], fingerprintIndex := Map.empty \<rparr>)
      | Unparseable \<Rightarrow> Threw s
      | NotArray \<Rightarrow>
          Returned (s\<lparr> logs := [], console := console s @ [Loaded 0] \<rparr>)
      | Stored elements \<Rightarrow>
          (case those elements of
             None \<Rightarrow> Threw s
           | Some data \<Rightarrow>
               Returned (s\<lparr> logs := data,
                             fingerprintIndex := rebuildIndex data 0 (fingerprintIndex s),
                             console := console s @ [Loaded (length data)] \<rparr>)))"

definition load :: "filesystem \<Rightarrow> store \<Rightarrow> outcome" where
  "load fs s =
     (case loadTry fs s of
        Returned s' \<Rightarrow> Returned s'
      | Threw s' \<Rightarrow>
          (let s1 = s'\<lparr> console := console s' @ [ErrorLoading],
                        logs := [], fingerprintIndex := Map.empty \<rparr>
           in case saveSync fs s1 of
                Returned s2 \<Rightarrow> Returned s2
              | Threw s2 \<Rightarrow> Returned (s2\<lparr> console := console s2 @ [FailedToInitialize] \<rparr>)))"

text \<open>The constructor, on a file system in the given state.\<close>

definition emptyStore :: "disk \<Rightarrow> store" where
  "emptyStore d =
     \<lparr> logs = [], fingerprintIndex = Map.empty, saveScheduled = False, savePending = False,
       timers = 0, logsFile = d, attempts = 0, writes = 0, console = [] \<rparr>"

definition newLogStore :: "filesystem \<Rightarrow> disk \<Rightarrow> outcome" where
  "newLogStore fs d = load fs (emptyStore d)"

definition scheduleAsyncSave :: "store \<Rightarrow> store" where
  "scheduleAsyncSave s =
     (if saveScheduled s then s\<lparr> savePending := True \<rparr>
      else s\<lparr> saveScheduled := True, timers := timers s + 1 \<rparr>)"

text \<open>The callback given to \<open>setTimeout\<close>, run when one armed timer fires,
  \<open>SAVE_DEBOUNCE_MS\<close> after it was armed.\<close>

definition timerCallback :: "filesystem \<Rightarrow> store \<Rightarrow> store" where
  "timerCallback fs s =
     (let s1 = s\<lparr> timers := timers s - 1, saveScheduled := False \<rparr>;
          s2 = (case writeFileSync fs s1 of
                  Returned t \<Rightarrow> t
                | Threw t \<Rightarrow> t\<lparr> console := console t @ [ErrorSaving] \<rparr>)
      in if savePending s2 then scheduleAsyncSave (s2\<lparr> savePending := False \<rparr>) else s2)"

text \<open>
  \<open>add(logEntry)\<close>; \<open>now\<close> is the value of \<open>Date.now()\<close>. The result is the store and
  the object \<open>{ isNew, fingerprint, entry }\<close>. \<open>existingLog\<close> is the record in the
  list, so assigning to it changes the list at \<open>index\<close>. An index that points outside
  \<open>logs\<close> makes \<open>existingLog\<close> undefined, and \<open>Object.assign\<close> throws a TypeError:
  no result.
\<close>

definition add :: "log_entry \<Rightarrow> int \<Rightarrow> store \<Rightarrow> (store \<times> bool \<times> string \<times> log_entry) option" where
  "add logEntry now s =
     (let fp = fingerprint logEntry
      in case fingerprintIndex s fp of
           Some index \<Rightarrow>
             (if index < length (logs s)
              then (let existingLog = logs s ! index;
                        patched = (Object_assign existingLog logEntry)\<lparr> lastPatched := Some now \<rparr>
                    in Some (s\<lparr> logs := (logs s)[index := patched], savePending := True \<rparr>,
                             False, fp, patched))
              else None)
         | None \<Rightarrow>
             (let newEntry = logEntry\<lparr> receivedAt := Some now \<rparr>
              in Some (s\<lparr> logs := logs s @ [newEntry],
                          fingerprintIndex := (fingerprintIndex s)(fp \<mapsto> length (logs s)),
                          savePending := True \<rparr>,
                       True, fp, newEntry)))"

definition getByFingerprint :: "store \<Rightarrow> string \<Rightarrow> log_entry option" where
  "getByFingerprint s fp =
     (case fingerprintIndex s fp of
        Some index \<Rightarrow> (if index < length (logs s) then Some (logs s ! index) else None)
      | None \<Rightarrow> None)"

definition clear :: "store \<Rightarrow> store" where
  "clear s = s\<lparr> logs := [], fingerprintIndex := Map.empty, savePending := True \<rparr>"

definition saveNow :: "filesystem \<Rightarrow> store \<Rightarrow> store" where
  "saveNow fs s =
     (case writeFileSync fs s of
        Returned t \<Rightarrow> t\<lparr> saveScheduled := False, savePending := False \<rparr>
      | Threw t \<Rightarrow> t\<lparr> console := console t @ [ErrorSaveNow] \<rparr>)"

section \<open>Runs of the store\<close>

text \<open>
  What happens to a store, in order: calls of its methods, and timers that fire. The
  ingest route calls \<open>add\<close> and then \<open>scheduleAsyncSave\<close>; the route that clears
  calls \<open>clear\<close> and then \<open>saveNow\<close>. A timer fires \<open>SAVE_DEBOUNCE_MS\<close> after
  \<open>scheduleAsyncSave\<close> armed it, so what happens within one debounce window is what
  stands between the arming and \<open>TimerFires\<close>. A timer can fire only when one is
  armed; \<open>add\<close> can throw. \<open>None\<close> is a run that does not exist.
\<close>

datatype event =
    Add log_entry int
  | Clear
  | ScheduleAsyncSave
  | TimerFires
  | SaveNow

fun step :: "filesystem \<Rightarrow> event \<Rightarrow> store \<Rightarrow> store option" where
  "step fs (Add logEntry now) s = map_option fst (add logEntry now s)"
| "step fs Clear s = Some (clear s)"
| "step fs ScheduleAsyncSave s = Some (scheduleAsyncSave s)"
| "step fs TimerFires s = (if timers s = 0 then None else Some (timerCallback fs s))"
| "step fs SaveNow s = Some (saveNow fs s)"

fun run :: "filesystem \<Rightarrow> event list \<Rightarrow> store \<Rightarrow> store option" where
  "run fs [] s = Some s"
| "run fs (e # es) s = (case step fs e s of None \<Rightarrow> None | Some s' \<Rightarrow> run fs es s')"



definition alwaysWritable :: filesystem where
  "alwaysWritable = (\<lambda>k. True)"

text \<open>The fingerprint index and the record list agree.\<close>

definition consistent :: "store \<Rightarrow> bool" where
  "consistent s =
     (card (dom (fingerprintIndex s)) = length (logs s) \<and>
      distinct (map fingerprint (logs s)) \<and>
      dom (fingerprintIndex s) = fingerprint ` set (logs s) \<and>
      (\<forall>i < length (logs s).
         fingerprintIndex s (fingerprint (logs s ! i)) = Some i \<and>
         getByFingerprint s (fingerprint (logs s ! i)) = Some (logs s ! i)))"

text \<open>The mutations of the store, and the fingerprints that a run of events has added
  since its last \<open>clear\<close>, on top of those held before.\<close>

fun isMutation :: "event \<Rightarrow> bool" where
  "isMutation (Add logEntry now) = True"
| "isMutation Clear = True"
| "isMutation e = False"

fun addedBy :: "event \<Rightarrow> string set \<Rightarrow> string set" where
  "addedBy (Add logEntry now) held = insert (fingerprint logEntry) held"
| "addedBy Clear held = {}"
| "addedBy e held = held"

fun addedAfter :: "string set \<Rightarrow> event list \<Rightarrow> string set" where
  "addedAfter held [] = held"
| "addedAfter held (e # es) = addedAfter (addedBy e held) es"

text \<open>What a call left behind, and whether it threw.\<close>

fun result :: "outcome \<Rightarrow> store" where
  "result (Returned s) = s"
| "result (Threw s) = s"

fun threw :: "outcome \<Rightarrow> bool" where
  "threw (Returned s) = False"
| "threw (Threw s) = True"


text \<open>
  The entry that the route builds for the observation \<open>POST api.example.com
  /api/users/login\<close> with the given status codes, under a fingerprint \<open>fp\<close>.
\<close>

definition loginEntry :: "string \<Rightarrow> int list \<Rightarrow> log_entry" where
  "loginEntry fp codes =
     \<lparr> fingerprint = fp, hostname = ''api.example.com'', httpMethod = ''POST'',
       normalizedPath = ''/api/users/login'', queryKeys = [], statusCodes = codes,
       discoveryCount = 1, timestamp = 0, receivedAt = None, lastPatched = None \<rparr>"

section \<open>Root domains\<close>

lemma split_dotfree: "c \<notin> set s \<Longrightarrow> split c s = [s]"
  by (induction s) auto

lemma split_append_sep:
  "c \<notin> set l \<Longrightarrow> split c (l @ c # rest) = l # split c rest"
  by (induction l) (auto split: list.splits)

lemma split_join:
  "ls \<noteq> [] \<Longrightarrow> \<forall>l \<in> set ls. c \<notin> set l \<Longrightarrow> split c (join [c] ls) = ls"
proof (induction "[c]" ls rule: join.induct)
  case 1
  then show ?case by simp
next
  case (2 p)
  then show ?case by (simp add: split_dotfree)
next
  case (3 p q ps)
  then show ?case by (simp add: split_append_sep)
qed

lemma getRootDomain_labels:
  assumes "ls \<noteq> []" and "\<forall>l \<in> set ls. CHR ''.'' \<notin> set l"
  shows "getRootDomain (join ''.'' ls) = join ''.'' (sliceLast 2 ls)"
proof -
  have s: "split CHR ''.'' (join ''.'' ls) = ls"
    using assms by (rule split_join)
  show ?thesis
    by (simp add: getRootDomain_def s sliceLast_def Let_def)
qed

text \<open>
  C10. \<open>isSameDomain\<close> is reflexive and symmetric, being the equality of
  \<open>getRootDomain\<close>; and \<open>getRootDomain\<close> of a host name made of the labels \<open>ls\<close>
  (none of them containing a dot) is made of the last two labels, or of all of them when
  there are at most two.
\<close>

theorem isSameDomain_reflexive_symmetric:
  "isSameDomain h h \<and>
   isSameDomain h1 h2 = isSameDomain h2 h1 \<and>
   isSameDomain h1 h2 = (getRootDomain h1 = getRootDomain h2) \<and>
   (ls \<noteq> [] \<and> (\<forall>l \<in> set ls. CHR ''.'' \<notin> set l) \<longrightarrow>
      getRootDomain (join ''.'' ls) = join ''.'' (sliceLast 2 ls))"
  using getRootDomain_labels by (auto simp: isSameDomain_def)

theorem isSameDomain_reflexive_symmetric_witness:
  "isSameDomain ''api.example.com'' ''api.example.com'' \<and>
   isSameDomain ''api.example.com'' ''www.example.com'' =
     isSameDomain ''www.example.com'' ''api.example.com'' \<and>
   [''api'', ''example'', ''com''] \<noteq> [] \<and>
   CHR ''.'' \<notin> set ''api'' \<and> CHR ''.'' \<notin> set ''example'' \<and> CHR ''.'' \<notin> set ''com'' \<and>
   getRootDomain ''api.example.com'' = ''example.com''"
  using isSameDomain_reflexive_symmetric
    [of "''api.example.com''" "''api.example.com''" "''www.example.com''"
        "[''api'', ''example'', ''com'']"]
  by (simp add: sliceLast_def)

section \<open>The pre-filter\<close>

lemma some_set: "some P xs = (\<exists>x \<in> set xs. P x)"
  by (simp add: some_def list_ex_iff)

lemma localhost_isLocalHost: "isLocalHost ''localhost''"
  by code_simp

lemma app_css_extension: "pathExtension ''/static/app.css'' = ''css''"
  by code_simp

lemma css_ignored: "''css'' \<in> set IGNORE_EXTENSIONS"
  by code_simp

text \<open>
  C6, as stated, fails: \<open>shouldIgnore\<close> does not look at the host name. For the loopback
  host \<open>localhost\<close> and the path \<open>/api/data\<close> it answers false.
\<close>

theorem shouldIgnore_localhost_counterexample:
  "isLocalHost ''localhost'' \<and> \<not> shouldIgnore ''GET'' ''localhost'' ''/api/data''"
  by code_simp

text \<open>
  C6, amended. \<open>shouldIgnore\<close> answers true exactly when the extension of the path is a
  static-asset extension or the path matches a noise pattern, whatever the method and the
  host name. The loopback test is the ingest route's own, made after the route has
  rejected a body that lacks a required field and before it calls \<open>shouldIgnore\<close>: the
  route answers \<open>ignored\<close> exactly when the three required fields are there and the host
  is local or \<open>shouldIgnore\<close> holds. So it ignores every observation from a local host
  whatever its method and path, provided that these are not empty; with a required field
  missing or empty it answers 400, whatever the host.
\<close>

theorem shouldIgnore_iff:
  "(shouldIgnore m h p \<longleftrightarrow>
      pathExtension p \<in> set IGNORE_EXTENSIONS \<or> (\<exists>pattern \<in> set NOISE_PATTERNS. pattern p)) \<and>
   shouldIgnore m h p = shouldIgnore m' h' p \<and>
   (routeAdmission (Some h) (Some m) (Some p) = Ignored \<longleftrightarrow>
      h \<noteq> [] \<and> m \<noteq> [] \<and> p \<noteq> [] \<and>
      (isLocalHost h \<or> pathExtension p \<in> set IGNORE_EXTENSIONS \<or>
       (\<exists>pattern \<in> set NOISE_PATTERNS. pattern p))) \<and>
   (isLocalHost h \<and> m \<noteq> [] \<and> p \<noteq> [] \<longrightarrow> routeAdmission (Some h) (Some m) (Some p) = Ignored) \<and>
   (routeAdmission hst mth pth = BadRequest \<longleftrightarrow>
      hst = None \<or> hst = Some [] \<or> mth = None \<or> mth = Some [] \<or>
      pth = None \<or> pth = Some [])"
proof -
  have sh: "shouldIgnore m h p \<longleftrightarrow>
      pathExtension p \<in> set IGNORE_EXTENSIONS \<or> (\<exists>pattern \<in> set NOISE_PATTERNS. pattern p)"
    for m h p
    by (auto simp: shouldIgnore_def arrayIncludes_def matchesNoise_def some_set Let_def)
  have empty: "\<not> isLocalHost []"
    by code_simp
  have head: "routeAdmission (Some h) (Some m) (Some p) =
      (if h = [] \<or> m = [] \<or> p = [] then BadRequest
       else if isLocalHost h \<or> shouldIgnore m h p then Ignored else Proceed)"
    by (simp add: routeAdmission_def)
  have bad: "routeAdmission hst mth pth = BadRequest \<longleftrightarrow>
      hst = None \<or> hst = Some [] \<or> mth = None \<or> mth = Some [] \<or>
      pth = None \<or> pth = Some []"
    by (cases hst; cases mth; cases pth) (simp_all add: routeAdmission_def)
  have local: "isLocalHost h \<Longrightarrow> h \<noteq> []"
    using empty by auto
  show ?thesis
    using sh [of m h p] sh [of m' h' p] bad local by (auto simp: head)
qed

theorem shouldIgnore_iff_witness:
  "isLocalHost ''localhost'' \<and> ''GET'' \<noteq> [] \<and> ''/api/data'' \<noteq> [] \<and>
   routeAdmission (Some ''localhost'') (Some ''GET'') (Some ''/api/data'') = Ignored \<and>
   routeAdmission (Some ''localhost'') (Some ''GET'') (Some []) = BadRequest \<and>
   pathExtension ''/static/app.css'' \<in> set IGNORE_EXTENSIONS \<and>
   shouldIgnore ''GET'' ''cdn.example.com'' ''/static/app.css''"
  using shouldIgnore_iff [of "''GET''" "''localhost''" "''/api/data''" "''GET''" "''localhost''"
      "Some ''localhost''" "Some ''GET''" "Some []"]
    shouldIgnore_iff [of "''GET''" "''cdn.example.com''" "''/static/app.css''" "''GET''" "''localhost''"]
    localhost_isLocalHost app_css_extension css_ignored
  by simp

section \<open>Classification\<close>

lemma decimal_three_digits:
  assumes "100 \<le> n" "n \<le> 999"
  shows "decimal n = [digitChar (n div 100), digitChar (n div 10 mod 10), digitChar (n mod 10)]"
proof -
  have a: "decimal n = decimal (n div 10) @ [digitChar (n mod 10)]"
    using assms by (subst decimal.simps) simp
  have b: "decimal (n div 10) = decimal (n div 10 div 10) @ [digitChar (n div 10 mod 10)]"
    using assms by (subst decimal.simps) simp
  have c: "decimal (n div 10 div 10) = [digitChar (n div 10 div 10)]"
    using assms by (subst decimal.simps) simp
  have d: "n div 10 div 10 = n div 100"
    by (simp add: div_mult2_eq[symmetric])
  show ?thesis using a b c d by simp
qed

lemma digitChar_eq_5: "d < 10 \<Longrightarrow> (digitChar d = CHR ''5'') = (d = 5)"
proof -
  assume "d < 10"
  then have "d \<in> {0, 1, 2, 3, 4, 5, 6, 7, 8, 9}" by auto
  then show ?thesis by (auto simp: digitChar_def)
qed

lemma status_5xx:
  assumes "100 \<le> n" "n \<le> 999"
  shows "statusStartsWith (Some n) ''5'' = (500 \<le> n \<and> n \<le> 599)"
proof -
  have r: "100 \<le> nat n" "nat n \<le> 999" using assms by auto
  have d: "nat n div 100 < 10" using r by simp
  have "startsWith (String n) ''5'' = (digitChar (nat n div 100) = CHR ''5'')"
    using assms by (auto simp add: String_def startsWith_def decimal_three_digits[OF r])
  also have "\<dots> = (nat n div 100 = 5)" using d by (rule digitChar_eq_5)
  also have "\<dots> = (500 \<le> n \<and> n \<le> 599)" using assms by auto
  finally show ?thesis using assms by (simp add: statusStartsWith_def)
qed

lemma status_5xx_valid: "validStatus sc \<Longrightarrow> statusStartsWith sc ''5'' = is5xx sc"
  by (cases sc) (auto simp: validStatus_def is5xx_def status_5xx, simp_all add: statusStartsWith_def)

lemma in_pushIf: "x \<in> set (pushIf b t ts) = (x \<in> set ts \<or> (b \<and> x = t))"
  by (auto simp: pushIf_def)

lemma tags_authentication:
  "''authentication'' \<in> set (classifyTags m p sc pc) = authPattern p"
  by (simp add: classifyTags_def in_pushIf Let_def)

lemma tags_api_endpoint:
  "''api-endpoint'' \<in> set (classifyTags m p sc pc) = apiPattern p"
  by (simp add: classifyTags_def in_pushIf Let_def)

lemma tags_state_change:
  "''state-change'' \<in> set (classifyTags m p sc pc) = isStateChangingMethod m"
  by (simp add: classifyTags_def in_pushIf Let_def)

lemma tags_business_logic:
  "''business-logic'' \<in> set (classifyTags m p sc pc) = hasActionWords p"
  by (simp add: classifyTags_def in_pushIf Let_def)

lemma isStateChangingMethod_iff:
  "isStateChangingMethod m = (toUpperCase m \<in> {''POST'', ''PUT'', ''DELETE'', ''PATCH''})"
  by (auto simp: isStateChangingMethod_def arrayIncludes_def toUpperCase_def)

lemma hasActionWords_iff:
  "hasActionWords p = (\<exists>word \<in> set ACTION_WORDS. includesStr (toLowerCase p) word)"
proof (cases "p = []")
  case True
  then show ?thesis
    by (simp add: hasActionWords_def toLowerCase_def includesStr_def ACTION_WORDS_def)
next
  case False
  then show ?thesis
    by (simp add: hasActionWords_def some_set Let_def)
qed

lemma login_auth: "authPattern ''/api/users/login''"
  by code_simp

lemma login_api: "apiPattern ''/api/users/login''"
  by code_simp

lemma login_action: "hasActionWords ''/api/users/login''"
  by code_simp

lemma post_state_changing: "isStateChangingMethod ''POST''"
  by code_simp

lemma score_unfolded:
  "score (classifyRequest m p h sc pc) =
     (if isStateChangingMethod m then 30 else 0) + (if hasActionWords p then 25 else 0) +
     (if authPattern p then 20 else 0) + (if apiPattern p then 15 else 0) +
     (if statusStartsWith sc ''5'' then 10 else 0)"
  by (simp add: classifyRequest_def classifyScore_def Let_def arrayIncludes_def
      tags_authentication tags_api_endpoint)

text \<open>
  C7, as stated, fails. \<open>PATCH /graphql\<close> with the status 50, which is no status of
  the class 5xx: the code adds 10 all the same, since the decimal form of 50 begins with 5.
  The score is 55 and the request is critical, where the specified score is 45.
\<close>

theorem classifyRequest_status_counterexample:
  "score (classifyRequest ''PATCH'' ''/graphql'' ''api.example.com'' (Some 50) False) = 55 \<and>
   critical (classifyRequest ''PATCH'' ''/graphql'' ''api.example.com'' (Some 50) False) \<and>
   specifiedScore ''PATCH'' ''/graphql'' (Some 50)
     (tags (classifyRequest ''PATCH'' ''/graphql'' ''api.example.com'' (Some 50) False)) = 45 \<and>
   \<not> is5xx (Some 50)"
  by code_simp

text \<open>
  C7, amended. For a method and a path of ASCII text and a status that is absent or an
  integer below \<open>10^21\<close>, the score of \<open>classifyRequest\<close> is 30 if the upper-cased
  method is POST, PUT, DELETE or PATCH, plus 25 if the lower-cased path contains an action
  word, plus 20 for the tag \<open>authentication\<close>, plus 15 for the tag \<open>api-endpoint\<close>,
  plus 10 if the status is not zero and its decimal form begins with the digit 5; for a
  status of three digits that is a status in 500..599. \<open>critical\<close> is \<open>score \<ge> 50\<close>.
  For POST \<open>/api/users/login\<close> on \<open>api.example.com\<close> with status 200 the four tags are
  there, the score is 90 and the request is critical.
\<close>

theorem classifyRequest_score:
  assumes "isAscii m" and "isAscii p" and "plainDecimal sc"
  shows
  "score (classifyRequest m p h sc pc) =
     (if isStateChangingMethod m then 30 else 0) +
     (if hasActionWords p then 25 else 0) +
     (if ''authentication'' \<in> set (tags (classifyRequest m p h sc pc)) then 20 else 0) +
     (if ''api-endpoint'' \<in> set (tags (classifyRequest m p h sc pc)) then 15 else 0) +
     (if statusStartsWith sc ''5'' then 10 else 0) \<and>
   statusStartsWith sc ''5'' = (\<exists>n. sc = Some n \<and> n \<noteq> 0 \<and> startsWith (String n) ''5'') \<and>
   (validStatus sc \<longrightarrow> statusStartsWith sc ''5'' = is5xx sc) \<and>
   critical (classifyRequest m p h sc pc) = (score (classifyRequest m p h sc pc) \<ge> 50) \<and>
   isStateChangingMethod m = (toUpperCase m \<in> {''POST'', ''PUT'', ''DELETE'', ''PATCH''}) \<and>
   hasActionWords p = (\<exists>word \<in> set ACTION_WORDS. includesStr (toLowerCase p) word) \<and>
   (''authentication'' \<in> set (tags (classifyRequest m p h sc pc))) = authPattern p \<and>
   (''api-endpoint'' \<in> set (tags (classifyRequest m p h sc pc))) = apiPattern p \<and>
   (''state-change'' \<in> set (tags (classifyRequest m p h sc pc))) = isStateChangingMethod m \<and>
   (''business-logic'' \<in> set (tags (classifyRequest m p h sc pc))) = hasActionWords p \<and>
   {''authentication'', ''api-endpoint'', ''state-change'', ''business-logic''}
     \<subseteq> set (tags (classifyRequest ''POST'' ''/api/users/login'' ''api.example.com'' (Some 200) pc)) \<and>
   score (classifyRequest ''POST'' ''/api/users/login'' ''api.example.com'' (Some 200) pc) = 90 \<and>
   critical (classifyRequest ''POST'' ''/api/users/login'' ''api.example.com'' (Some 200) pc)"
proof -
  have t: "tags (classifyRequest m' p' h' sc' pc') = classifyTags m' p' sc' pc'" for m' p' h' sc' pc'
    by (simp add: classifyRequest_def Let_def)
  have c: "critical (classifyRequest m' p' h' sc' pc') = (score (classifyRequest m' p' h' sc' pc') \<ge> 50)"
    for m' p' h' sc' pc'
    by (simp add: classifyRequest_def Let_def)
  have v200: "validStatus (Some 200)"
    by (simp add: validStatus_def)
  have n200: "\<not> is5xx (Some 200)"
    by (simp add: is5xx_def)
  have s200: "score (classifyRequest ''POST'' ''/api/users/login'' ''api.example.com'' (Some 200) pc) = 90"
    by (simp add: score_unfolded status_5xx_valid[OF v200] n200
        login_auth login_api login_action post_state_changing)
  have sc: "score (classifyRequest m p h sc pc) =
     (if isStateChangingMethod m then 30 else 0) +
     (if hasActionWords p then 25 else 0) +
     (if ''authentication'' \<in> set (tags (classifyRequest m p h sc pc)) then 20 else 0) +
     (if ''api-endpoint'' \<in> set (tags (classifyRequest m p h sc pc)) then 15 else 0) +
     (if statusStartsWith sc ''5'' then 10 else 0)"
    by (simp only: score_unfolded t tags_authentication tags_api_endpoint)
  have st: "statusStartsWith sc ''5'' = (\<exists>n. sc = Some n \<and> n \<noteq> 0 \<and> startsWith (String n) ''5'')"
    by (cases sc) (simp_all add: statusStartsWith_def)
  have v: "validStatus sc \<longrightarrow> statusStartsWith sc ''5'' = is5xx sc"
    using status_5xx_valid by blast
  have ex: "{''authentication'', ''api-endpoint'', ''state-change'', ''business-logic''}
     \<subseteq> set (tags (classifyRequest ''POST'' ''/api/users/login'' ''api.example.com'' (Some 200) pc))"
    by (simp add: t tags_authentication tags_api_endpoint tags_state_change tags_business_logic
        login_auth login_api login_action post_state_changing)
  have cr: "critical (classifyRequest ''POST'' ''/api/users/login'' ''api.example.com'' (Some 200) pc)"
    by (simp add: c s200)
  show ?thesis
    using sc st v c s200 ex cr isStateChangingMethod_iff [of m] hasActionWords_iff [of p]
    by (simp only: t tags_authentication tags_api_endpoint tags_state_change tags_business_logic)
qed

theorem classifyRequest_score_witness:
  "isAscii ''GET'' \<and> isAscii ''/v2/items'' \<and> plainDecimal (Some 503) \<and>
   validStatus (Some 503) \<and>
   score (classifyRequest ''GET'' ''/v2/items'' ''shop.example.com'' (Some 503) True) = 25 \<and>
   \<not> critical (classifyRequest ''GET'' ''/v2/items'' ''shop.example.com'' (Some 503) True)"
proof -
  have am: "isAscii ''GET''" by code_simp
  have ap: "isAscii ''/v2/items''" by code_simp
  have pd: "plainDecimal (Some 503)" by (simp add: plainDecimal_def)
  have v: "validStatus (Some 503)"
    by (simp add: validStatus_def)
  have a: "\<not> isStateChangingMethod ''GET''" by code_simp
  have b: "\<not> hasActionWords ''/v2/items''" by code_simp
  have c: "\<not> authPattern ''/v2/items''" by code_simp
  have d: "apiPattern ''/v2/items''" by code_simp
  have e: "is5xx (Some 503)" by (simp add: is5xx_def)
  note inst = classifyRequest_score [OF am ap pd, of "''shop.example.com''" True]
  from inst v e have five: "statusStartsWith (Some 503) ''5''"
    by blast
  from inst c d have tg:
    "''authentication'' \<notin> set (tags (classifyRequest ''GET'' ''/v2/items'' ''shop.example.com'' (Some 503) True))"
    "''api-endpoint'' \<in> set (tags (classifyRequest ''GET'' ''/v2/items'' ''shop.example.com'' (Some 503) True))"
    by blast+
  from inst have "score (classifyRequest ''GET'' ''/v2/items'' ''shop.example.com'' (Some 503) True) =
     (if isStateChangingMethod ''GET'' then 30 else 0) +
     (if hasActionWords ''/v2/items'' then 25 else 0) +
     (if ''authentication'' \<in> set (tags (classifyRequest ''GET'' ''/v2/items'' ''shop.example.com'' (Some 503) True)) then 20 else 0) +
     (if ''api-endpoint'' \<in> set (tags (classifyRequest ''GET'' ''/v2/items'' ''shop.example.com'' (Some 503) True)) then 15 else 0) +
     (if statusStartsWith (Some 503) ''5'' then 10 else 0)"
    by (rule conjunct1)
  with a b tg five
  have sc: "score (classifyRequest ''GET'' ''/v2/items'' ''shop.example.com'' (Some 503) True) = 25"
    by simp
  from inst have "critical (classifyRequest ''GET'' ''/v2/items'' ''shop.example.com'' (Some 503) True) =
      (score (classifyRequest ''GET'' ''/v2/items'' ''shop.example.com'' (Some 503) True) \<ge> 50)"
    by blast
  with sc have "\<not> critical (classifyRequest ''GET'' ''/v2/items'' ''shop.example.com'' (Some 503) True)"
    by simp
  with sc am ap pd v show ?thesis
    by simp
qed

section \<open>Fingerprints agree across the boundary\<close>

lemma toString16_padded:
  assumes "n < 256"
  shows "padStart 2 CHR ''0'' (toString16 n) = [hexChar (n div 16), hexChar (n mod 16)]"
proof (cases "n < 16")
  case True
  then have "toString16 n = [hexChar n]"
    by (subst toString16.simps) simp
  with True show ?thesis
    by (simp add: padStart_def hexChar_def)
next
  case False
  with assms have small: "n div 16 < 16" by simp
  have "toString16 n = toString16 (n div 16) @ [hexChar (n mod 16)]"
    using False by (subst toString16.simps) simp
  moreover have "toString16 (n div 16) = [hexChar (n div 16)]"
    using small by (subst toString16.simps) simp
  ultimately show ?thesis
    by (simp add: padStart_def)
qed

lemma unat_byte_bound: "unat (b :: byte) < 256"
  using unsigned_less [of b] by simp

lemma hex_bytes_agree:
  "concat (map (\<lambda>b. padStart 2 CHR ''0'' (toString16 (unat b))) (bs :: byte list)) = digestHex bs"
  by (induction bs) (simp_all add: digestHex_def toString16_padded unat_byte_bound)

lemma hexChar_lower: "d < 16 \<Longrightarrow> isLowerHex (hexChar d)"
proof -
  assume "d < 16"
  then have "d = 0 \<or> d = 1 \<or> d = 2 \<or> d = 3 \<or> d = 4 \<or> d = 5 \<or> d = 6 \<or> d = 7 \<or>
    d = 8 \<or> d = 9 \<or> d = 10 \<or> d = 11 \<or> d = 12 \<or> d = 13 \<or> d = 14 \<or> d = 15"
    by arith
  then show ?thesis by (auto simp: hexChar_def isLowerHex_def)
qed

lemma digestHex_lower: "list_all isLowerHex (digestHex bs)"
proof (induction bs)
  case Nil
  show ?case by (simp add: digestHex_def)
next
  case (Cons b bs)
  have "unat b div 16 < 16" using unat_byte_bound [of b] by simp
  moreover have "unat b mod 16 < 16" by simp
  ultimately show ?case
    using Cons by (simp add: digestHex_def hexChar_lower)
qed

lemma length_digestHex: "length (digestHex bs) = 2 * length bs"
  by (induction bs) (simp_all add: digestHex_def)

text \<open>
  C2. With the platform's SHA-256 as \<open>sha256\<close>, the same function on both sides, the
  fingerprint of the extension and the fingerprint of the backend are the same string for
  every method, host name and path: the lower-case hexadecimal digest, two digits for each
  byte, of the bytes of \<open>method:hostname:normalizedPath\<close>. Each of the two is a function
  of the triple alone: it reads no state, no clock and no random source, so equal triples
  give equal digests in every call and in every process.
\<close>

theorem generateFingerprint_agree:
  "FingerprintEngine_generateFingerprint sha256 m h p =
     ExtensionFilter_generateFingerprint sha256 m h p \<and>
   ExtensionFilter_generateFingerprint sha256 m h p =
     digestHex (sha256 (encodeUtf8 (m @ '':'' @ h @ '':'' @ p))) \<and>
   list_all isLowerHex (ExtensionFilter_generateFingerprint sha256 m h p) \<and>
   length (ExtensionFilter_generateFingerprint sha256 m h p) =
     2 * length (sha256 (encodeUtf8 (m @ '':'' @ h @ '':'' @ p)))"
  by (simp add: FingerprintEngine_generateFingerprint_def ExtensionFilter_generateFingerprint_def
      Let_def hex_bytes_agree digestHex_lower length_digestHex)

section \<open>The session fingerprint cache is bounded\<close>

lemma keys_recordOccurrence:
  "map fst (recordOccurrence fp now m) = (if mapHas m fp then map fst m else map fst m @ [fp])"
proof -
  have "map fst (map (\<lambda>(k, d). if k = fp then (k, d\<lparr> count := count d + 1 \<rparr>) else (k, d)) m)
          = map fst m"
    by (induction m) auto
  then show ?thesis
    by (simp add: recordOccurrence_def mapSet_def)
qed

lemma distinct_recordOccurrence:
  "distinct (map fst m) \<Longrightarrow> distinct (map fst (recordOccurrence fp now m))"
  by (auto simp: keys_recordOccurrence mapHas_def)

lemma rebuild_distinct:
  "distinct (map fst (acc @ es)) \<Longrightarrow>
     foldl (\<lambda>acc (fp, d). mapSet fp d acc) acc es = acc @ es"
proof (induction es arbitrary: acc)
  case Nil
  then show ?case by simp
next
  case (Cons e es)
  obtain fp d where e: "e = (fp, d)" by (cases e)
  from Cons.prems have fresh: "\<not> mapHas acc fp"
    by (auto simp: e mapHas_def)
  from Cons.prems have "distinct (map fst ((acc @ [e]) @ es))" by simp
  then have "foldl (\<lambda>acc (fp, d). mapSet fp d acc) (acc @ [e]) es = (acc @ [e]) @ es"
    by (rule Cons.IH)
  with fresh show ?case
    by (simp add: e mapSet_def)
qed

lemma distinct_keys_sorted:
  "distinct (map fst m) \<Longrightarrow> distinct (map fst (sortNewestFirst m))"
  by (simp add: sortNewestFirst_def distinct_map)

lemma prune_evicts:
  assumes "distinct (map fst m)" and "length m > lim"
  shows "pruneOldFingerprints lim m = take lim (sortNewestFirst m)"
proof -
  have "distinct (map fst (take lim (sortNewestFirst m)))"
    using distinct_keys_sorted [OF assms(1)] by (simp add: take_map [symmetric])
  then have "foldl (\<lambda>acc (fp, d). mapSet fp d acc) [] (take lim (sortNewestFirst m))
               = take lim (sortNewestFirst m)"
    using rebuild_distinct [of "[]"] by simp
  with assms(2) show ?thesis
    by (simp add: pruneOldFingerprints_def Let_def)
qed

lemma sorted_take_drop:
  assumes "sorted (map f xs)" and "x \<in> set (take n xs)" and "y \<in> set (drop n xs)"
  shows "f x \<le> f y"
proof -
  have "sorted (map f (take n xs) @ map f (drop n xs))"
    using assms(1) by (simp add: map_append [symmetric] del: map_append)
  then show ?thesis
    using assms(2,3) by (auto simp: sorted_append)
qed

lemma newest_kept:
  assumes "kept \<in> set (take lim (sortNewestFirst m))"
    and "dropped \<in> set (drop lim (sortNewestFirst m))"
  shows "firstSeen (snd dropped) \<le> firstSeen (snd kept)"
proof -
  have "sorted (map (\<lambda>(fp, d). - firstSeen d) (sortNewestFirst m))"
    by (simp add: sortNewestFirst_def)
  from sorted_take_drop [OF this assms]
  show ?thesis by (simp add: case_prod_unfold)
qed

lemma dropped_in_drop:
  assumes "e \<in> set m" and "e \<notin> set (take lim (sortNewestFirst m))"
  shows "e \<in> set (drop lim (sortNewestFirst m))"
proof -
  have "set m = set (sortNewestFirst m)"
    by (simp add: sortNewestFirst_def)
  also have "\<dots> = set (take lim (sortNewestFirst m)) \<union> set (drop lim (sortNewestFirst m))"
    by (simp only: set_append [symmetric] append_take_drop_id)
  finally show ?thesis
    using assms by blast
qed

lemma updateFingerprint_cases:
  assumes "distinct (map fst m)"
  shows
  "length (updateFingerprint lim fp now m) \<le> lim \<and>
   distinct (map fst (updateFingerprint lim fp now m)) \<and>
   set (updateFingerprint lim fp now m) \<subseteq> set (recordOccurrence fp now m) \<and>
   (length (recordOccurrence fp now m) > lim \<longrightarrow>
      length (updateFingerprint lim fp now m) = lim \<and>
      (\<forall>kept \<in> set (updateFingerprint lim fp now m).
         \<forall>dropped \<in> set (recordOccurrence fp now m) - set (updateFingerprint lim fp now m).
           firstSeen (snd dropped) \<le> firstSeen (snd kept))) \<and>
   (length (recordOccurrence fp now m) \<le> lim \<longrightarrow>
      updateFingerprint lim fp now m = recordOccurrence fp now m)"
proof (cases "length (recordOccurrence fp now m) > lim")
  case True
  let ?m1 = "recordOccurrence fp now m"
  have d1: "distinct (map fst ?m1)"
    using assms by (rule distinct_recordOccurrence)
  have eq: "updateFingerprint lim fp now m = take lim (sortNewestFirst ?m1)"
    by (simp add: updateFingerprint_def prune_evicts [OF d1 True])
  have len: "length (take lim (sortNewestFirst ?m1)) = lim"
    using True by (simp add: sortNewestFirst_def)
  have dist: "distinct (map fst (take lim (sortNewestFirst ?m1)))"
    using distinct_keys_sorted [OF d1] by (simp add: take_map [symmetric])
  have sub: "set (take lim (sortNewestFirst ?m1)) \<subseteq> set ?m1"
    using set_take_subset [of lim "sortNewestFirst ?m1"] by (simp add: sortNewestFirst_def)
  have newest: "\<forall>kept \<in> set (take lim (sortNewestFirst ?m1)).
      \<forall>dropped \<in> set ?m1 - set (take lim (sortNewestFirst ?m1)).
        firstSeen (snd dropped) \<le> firstSeen (snd kept)"
    using newest_kept dropped_in_drop by blast
  show ?thesis
    using True len dist sub newest by (simp add: eq)
next
  case False
  then have eq: "updateFingerprint lim fp now m = recordOccurrence fp now m"
    by (simp add: updateFingerprint_def pruneOldFingerprints_def)
  show ?thesis
    using False distinct_recordOccurrence [OF assms] by (simp add: eq)
qed

lemma updateAll_bounded:
  "distinct (map fst m) \<Longrightarrow> length m \<le> lim \<Longrightarrow>
     length (updateAll lim calls m) \<le> lim \<and> distinct (map fst (updateAll lim calls m))"
proof (induction calls arbitrary: m)
  case Nil
  then show ?case by simp
next
  case (Cons c calls)
  obtain fp now where c: "c = (fp, now)" by (cases c)
  have "length (updateFingerprint lim fp now m) \<le> lim"
    and "distinct (map fst (updateFingerprint lim fp now m))"
    using updateFingerprint_cases [OF Cons.prems(1)] by blast+
  then show ?case
    using Cons.IH by (simp add: c)
qed

text \<open>
  C9. A cache is a \<open>Map\<close>: its keys are distinct. After \<open>updateFingerprint\<close> the cache
  has at most \<open>lim\<close> entries, with distinct keys. When the occurrence just recorded makes
  the cache larger than \<open>lim\<close>, exactly \<open>lim\<close> of its entries are kept, each with its
  \<open>firstSeen\<close> and its \<open>count\<close>, and every entry that is dropped was first seen no
  later than every entry that is kept; otherwise nothing is dropped. So a cache that
  starts empty never holds more than \<open>lim\<close> entries, and with the configured
  \<open>SESSION_FINGERPRINT_LIMIT\<close> never more than 1000.
\<close>

theorem updateFingerprint_bounded:
  assumes "distinct (map fst m)"
  shows
  "length (updateFingerprint lim fp now m) \<le> lim \<and>
   distinct (map fst (updateFingerprint lim fp now m)) \<and>
   set (updateFingerprint lim fp now m) \<subseteq> set (recordOccurrence fp now m) \<and>
   (length (recordOccurrence fp now m) > lim \<longrightarrow>
      length (updateFingerprint lim fp now m) = lim \<and>
      (\<forall>kept \<in> set (updateFingerprint lim fp now m).
         \<forall>dropped \<in> set (recordOccurrence fp now m) - set (updateFingerprint lim fp now m).
           firstSeen (snd dropped) \<le> firstSeen (snd kept))) \<and>
   (length (recordOccurrence fp now m) \<le> lim \<longrightarrow>
      updateFingerprint lim fp now m = recordOccurrence fp now m) \<and>
   length (updateAll lim calls []) \<le> lim \<and>
   length (updateAll SESSION_FINGERPRINT_LIMIT calls []) \<le> 1000"
proof -
  have "length (updateAll k calls []) \<le> k" for k
    using updateAll_bounded [of "[]" k calls] by simp
  from this [of lim] this [of SESSION_FINGERPRINT_LIMIT] updateFingerprint_cases [OF assms, of lim fp now]
  show ?thesis
    by (simp add: SESSION_FINGERPRINT_LIMIT_def)
qed

theorem updateFingerprint_bounded_witness:
  "distinct (map fst [(''a'', \<lparr> firstSeen = 1, count = 4 \<rparr>), (''b'', \<lparr> firstSeen = 2, count = 1 \<rparr>)]) \<and>
   length (recordOccurrence ''c'' 3
     [(''a'', \<lparr> firstSeen = 1, count = 4 \<rparr>), (''b'', \<lparr> firstSeen = 2, count = 1 \<rparr>)]) = 3 \<and>
   updateFingerprint 2 ''c'' 3
     [(''a'', \<lparr> firstSeen = 1, count = 4 \<rparr>), (''b'', \<lparr> firstSeen = 2, count = 1 \<rparr>)] =
     [(''c'', \<lparr> firstSeen = 3, count = 1 \<rparr>), (''b'', \<lparr> firstSeen = 2, count = 1 \<rparr>)] \<and>
   length (updateFingerprint 2 ''c'' 3
     [(''a'', \<lparr> firstSeen = 1, count = 4 \<rparr>), (''b'', \<lparr> firstSeen = 2, count = 1 \<rparr>)]) = 2"
proof -
  let ?m = "[(''a'', \<lparr> firstSeen = 1, count = 4 \<rparr>), (''b'', \<lparr> firstSeen = 2, count = 1 \<rparr>)]"
  have d: "distinct (map fst ?m)"
    by simp
  have r: "recordOccurrence ''c'' 3 ?m = ?m @ [(''c'', \<lparr> firstSeen = 3, count = 1 \<rparr>)]"
    by code_simp
  have u: "updateFingerprint 2 ''c'' 3 ?m =
      [(''c'', \<lparr> firstSeen = 3, count = 1 \<rparr>), (''b'', \<lparr> firstSeen = 2, count = 1 \<rparr>)]"
    by code_simp
  show ?thesis
    using updateFingerprint_bounded [OF d, of 2 "''c''" 3] d r u by simp
qed

section \<open>The store and its index\<close>

lemma consistent_iff:
  "consistent s =
     (distinct (map fingerprint (logs s)) \<and>
      dom (fingerprintIndex s) = fingerprint ` set (logs s) \<and>
      (\<forall>i < length (logs s). fingerprintIndex s (fingerprint (logs s ! i)) = Some i))"
proof -
  have "card (dom (fingerprintIndex s)) = length (logs s)"
    if "distinct (map fingerprint (logs s))" and "dom (fingerprintIndex s) = fingerprint ` set (logs s)"
  proof -
    have "card (fingerprint ` set (logs s)) = length (map fingerprint (logs s))"
      using distinct_card [OF that(1)] by simp
    with that(2) show ?thesis by simp
  qed
  then show ?thesis
    by (auto simp: consistent_def getByFingerprint_def)
qed


lemma consistent_clear: "consistent (clear s)"
  by (simp add: consistent_iff clear_def)

lemma index_in_range:
  assumes "consistent s" and "fingerprintIndex s fp = Some i"
  shows "i < length (logs s) \<and> fingerprint (logs s ! i) = fp"
proof -
  from assms have "fp \<in> fingerprint ` set (logs s)"
    by (auto simp: consistent_iff)
  then obtain j where j: "j < length (logs s)" "fingerprint (logs s ! j) = fp"
    by (auto simp: in_set_conv_nth)
  with assms(1) have "fingerprintIndex s fp = Some j"
    by (auto simp: consistent_iff)
  with assms(2) j show ?thesis by simp
qed

lemma add_new:
  assumes "fingerprintIndex s (fingerprint c) = None"
  shows "add c now s =
     Some (s\<lparr> logs := logs s @ [c\<lparr> receivedAt := Some now \<rparr>],
               fingerprintIndex := (fingerprintIndex s)(fingerprint c \<mapsto> length (logs s)),
               savePending := True \<rparr>,
           True, fingerprint c, c\<lparr> receivedAt := Some now \<rparr>)"
  using assms by (simp add: add_def Let_def)

lemma add_existing:
  assumes "fingerprintIndex s (fingerprint c) = Some i" and "i < length (logs s)"
  shows "add c now s =
     Some (s\<lparr> logs := (logs s)[i := (Object_assign (logs s ! i) c)\<lparr> lastPatched := Some now \<rparr>],
               savePending := True \<rparr>,
           False, fingerprint c, (Object_assign (logs s ! i) c)\<lparr> lastPatched := Some now \<rparr>)"
  using assms by (simp add: add_def Let_def)

lemma fingerprint_Object_assign: "fingerprint (Object_assign t c) = fingerprint c"
  by (simp add: Object_assign_def)

lemma consistent_add:
  assumes "consistent s"
  shows "\<exists>s' r. add c now s = Some (s', r) \<and> consistent s' \<and>
           fingerprint ` set (logs s') = insert (fingerprint c) (fingerprint ` set (logs s))"
proof (cases "fingerprintIndex s (fingerprint c)")
  case None
  let ?s' = "s\<lparr> logs := logs s @ [c\<lparr> receivedAt := Some now \<rparr>],
               fingerprintIndex := (fingerprintIndex s)(fingerprint c \<mapsto> length (logs s)),
               savePending := True \<rparr>"
  from None assms have fresh: "fingerprint c \<notin> fingerprint ` set (logs s)"
    by (auto simp: consistent_iff)
  have differ: "fingerprint (logs s ! i) \<noteq> fingerprint c" if "i < length (logs s)" for i
    using fresh that by (metis imageI nth_mem)
  have "consistent ?s'"
    using assms fresh differ by (auto simp: consistent_iff nth_append)
  moreover have "fingerprint ` set (logs ?s') = insert (fingerprint c) (fingerprint ` set (logs s))"
    by simp
  ultimately show ?thesis
    using add_new [OF None] by blast
next
  case (Some i)
  from index_in_range [OF assms Some]
  have i: "i < length (logs s)" and fi: "fingerprint (logs s ! i) = fingerprint c"
    by simp_all
  let ?r = "(Object_assign (logs s ! i) c)\<lparr> lastPatched := Some now \<rparr>"
  let ?s' = "s\<lparr> logs := (logs s)[i := ?r], savePending := True \<rparr>"
  have same: "map fingerprint ((logs s)[i := ?r]) = map fingerprint (logs s)"
    using i fi by (simp add: map_update fingerprint_Object_assign list_update_same_conv)
  have img: "fingerprint ` set ((logs s)[i := ?r]) = fingerprint ` set (logs s)"
    using same by (metis list.set_map)
  have nth: "fingerprint ((logs s)[i := ?r] ! j) = fingerprint (logs s ! j)" if "j < length (logs s)" for j
    using that same by (metis length_list_update nth_map)
  have "consistent ?s'"
    using assms by (simp add: consistent_iff same img nth)
  moreover have "fingerprint c \<in> fingerprint ` set (logs s)"
    using i fi by (metis imageI nth_mem)
  then have "fingerprint ` set (logs ?s') = insert (fingerprint c) (fingerprint ` set (logs s))"
    using img by auto
  ultimately show ?thesis
    using add_existing [OF Some i] by blast
qed

lemma logs_scheduleAsyncSave:
  "logs (scheduleAsyncSave s) = logs s \<and>
   fingerprintIndex (scheduleAsyncSave s) = fingerprintIndex s"
  by (simp add: scheduleAsyncSave_def)

lemma logs_timerCallback:
  "logs (timerCallback fs s) = logs s \<and> fingerprintIndex (timerCallback fs s) = fingerprintIndex s"
  by (simp add: timerCallback_def writeFileSync_def scheduleAsyncSave_def Let_def)

lemma logs_saveNow:
  "logs (saveNow fs s) = logs s \<and> fingerprintIndex (saveNow fs s) = fingerprintIndex s"
  by (simp add: saveNow_def writeFileSync_def)

lemma unchanged_consistent:
  assumes "consistent s"
    and "logs s' = logs s \<and> fingerprintIndex s' = fingerprintIndex s"
  shows "consistent s' \<and> fingerprint ` set (logs s') = fingerprint ` set (logs s)"
  using assms by (simp add: consistent_iff)

lemma step_consistent:
  assumes "consistent s" and "step fs e s = Some s'"
  shows "consistent s' \<and>
         fingerprint ` set (logs s') = addedBy e (fingerprint ` set (logs s))"
proof (cases e)
  case (Add c now)
  from consistent_add [OF assms(1), of c now] assms(2) show ?thesis
    by (auto simp: Add)
next
  case Clear
  with assms(2) have "s' = clear s" by simp
  then show ?thesis
    by (simp add: Clear consistent_clear) (simp add: clear_def)
next
  case ScheduleAsyncSave
  with assms(2) have "s' = scheduleAsyncSave s" by simp
  with unchanged_consistent [OF assms(1) logs_scheduleAsyncSave] show ?thesis
    by (simp add: ScheduleAsyncSave)
next
  case TimerFires
  with assms(2) have "s' = timerCallback fs s" by (simp split: if_splits)
  with unchanged_consistent [OF assms(1) logs_timerCallback] show ?thesis
    by (simp add: TimerFires)
next
  case SaveNow
  with assms(2) have "s' = saveNow fs s" by simp
  with unchanged_consistent [OF assms(1) logs_saveNow] show ?thesis
    by (simp add: SaveNow)
qed

lemma run_consistent:
  assumes "consistent s" and "run fs evs s = Some s'"
  shows "consistent s' \<and>
         fingerprint ` set (logs s') = addedAfter (fingerprint ` set (logs s)) evs"
  using assms
proof (induction evs arbitrary: s)
  case Nil
  then show ?case by simp
next
  case (Cons e evs)
  from Cons.prems(2) obtain s1 where s1: "step fs e s = Some s1" "run fs evs s1 = Some s'"
    by (auto split: option.splits)
  from step_consistent [OF Cons.prems(1) s1(1)] Cons.IH [OF _ s1(2)]
  show ?case by simp
qed

lemma step_mutation_defined:
  assumes "consistent s" and "isMutation e"
  shows "step fs e s \<noteq> None"
proof (cases e)
  case (Add c now)
  from consistent_add [OF assms(1), of c now] show ?thesis
    by (auto simp: Add)
qed (use assms in auto)

lemma run_mutations_defined:
  assumes "consistent s" and "\<forall>e \<in> set evs. isMutation e"
  shows "run fs evs s \<noteq> None"
  using assms
proof (induction evs arbitrary: s)
  case Nil
  then show ?case by simp
next
  case (Cons e evs)
  from Cons.prems have "step fs e s \<noteq> None"
    by (simp add: step_mutation_defined)
  then obtain s1 where s1: "step fs e s = Some s1" by auto
  from step_consistent [OF Cons.prems(1) s1] Cons.prems(2) Cons.IH [of s1]
  show ?case by (simp add: s1)
qed

lemma consistent_empty:
  "logs s = [] \<Longrightarrow> fingerprintIndex s = Map.empty \<Longrightarrow> consistent s"
  by (simp add: consistent_iff)

text \<open>
  C3. Start from an empty store (no record, no index entry; a store just constructed is
  one) and let any events happen. Whenever the run exists, the index and the record list
  agree: as many index keys as records, no fingerprint twice, the keys of the index are
  the fingerprints of the records, and the index leads from the fingerprint of each record
  to that record; and the fingerprints held are exactly those added since the last
  \<open>clear\<close>. A run of \<open>add\<close> and \<open>clear\<close> alone always exists: no \<open>add\<close> throws.
\<close>

theorem store_index_agree:
  assumes "logs s0 = []" and "fingerprintIndex s0 = Map.empty"
  shows
  "(run fs evs s0 = Some s \<longrightarrow>
      consistent s \<and> fingerprint ` set (logs s) = addedAfter {} evs) \<and>
   ((\<forall>e \<in> set evs. isMutation e) \<longrightarrow> run fs evs s0 \<noteq> None)"
proof -
  have c: "consistent s0"
    using assms by (rule consistent_empty)
  have "fingerprint ` set (logs s0) = {}"
    using assms(1) by simp
  then show ?thesis
    using run_consistent [OF c, of fs evs s] run_mutations_defined [OF c, of evs fs]
    by auto
qed

theorem store_index_agree_witness:
  "logs (emptyStore Absent) = [] \<and> fingerprintIndex (emptyStore Absent) = Map.empty \<and>
   isMutation (Add (loginEntry ''a'' [200]) 1) \<and> isMutation Clear \<and>
   (case run alwaysWritable
      [Add (loginEntry ''a'' [200]) 1, Clear, Add (loginEntry ''b'' [200]) 2,
       Add (loginEntry ''a'' [200]) 3, Add (loginEntry ''b'' [404]) 4] (emptyStore Absent)
    of None \<Rightarrow> False
     | Some s \<Rightarrow> consistent s \<and> fingerprint ` set (logs s) = {''a'', ''b''} \<and>
         length (logs s) = 2 \<and> card (dom (fingerprintIndex s)) = 2)"
proof -
  let ?evs = "[Add (loginEntry ''a'' [200]) 1, Clear, Add (loginEntry ''b'' [200]) 2,
       Add (loginEntry ''a'' [200]) 3, Add (loginEntry ''b'' [404]) 4]"
  have m: "\<forall>e \<in> set ?evs. isMutation e"
    by simp
  have a: "addedAfter {} ?evs = {''a'', ''b''}"
    by (auto simp: loginEntry_def)
  have l: "map_option (\<lambda>s. length (logs s)) (run alwaysWritable ?evs (emptyStore Absent)) = Some 2"
    by code_simp
  have e: "logs (emptyStore Absent) = []" "fingerprintIndex (emptyStore Absent) = Map.empty"
    by (simp_all add: emptyStore_def)
  obtain s where s: "run alwaysWritable ?evs (emptyStore Absent) = Some s"
    using store_index_agree [OF e, of alwaysWritable ?evs] m by blast
  have "consistent s \<and> fingerprint ` set (logs s) = {''a'', ''b''}"
    using store_index_agree [OF e, of alwaysWritable ?evs s] s a by simp
  moreover have "length (logs s) = 2"
    using l s by simp
  ultimately show ?thesis
    using s e by (simp add: consistent_def)
qed

section \<open>Adding an entry whose fingerprint is present\<close>




section \<open>Debounced saving\<close>























section \<open>The forced save\<close>

text \<open>
  C8. \<open>saveNow\<close> writes at once and, when the write succeeds, resets both flags; but it
  has no handle on the timer and leaves it armed. An observation is added and a save
  requested, then the store is cleared and saved by force (the route \<open>DELETE /api/logs\<close>),
  all before the timer fires: after \<open>saveNow\<close> the flag \<open>saveScheduled\<close> is off while
  one timer is armed, and when that timer fires it writes a second time, with no mutation
  in between. A request made before it fires arms a second timer beside it.
\<close>

theorem saveNow_leaves_timer:
  "timers (saveNow fs s) = timers s \<and>
   logsFile (saveNow alwaysWritable s) = Stored (map Some (logs s)) \<and>
   \<not> saveScheduled (saveNow alwaysWritable s) \<and> \<not> savePending (saveNow alwaysWritable s) \<and>
   map_option timers
     (run alwaysWritable [Add (loginEntry ''a'' [200]) 1, ScheduleAsyncSave, Clear, SaveNow]
        (emptyStore (Stored []))) = Some 1 \<and>
   map_option saveScheduled
     (run alwaysWritable [Add (loginEntry ''a'' [200]) 1, ScheduleAsyncSave, Clear, SaveNow]
        (emptyStore (Stored []))) = Some False \<and>
   map_option writes
     (run alwaysWritable [Add (loginEntry ''a'' [200]) 1, ScheduleAsyncSave, Clear, SaveNow]
        (emptyStore (Stored []))) = Some 1 \<and>
   map_option writes
     (run alwaysWritable
        [Add (loginEntry ''a'' [200]) 1, ScheduleAsyncSave, Clear, SaveNow, TimerFires]
        (emptyStore (Stored []))) = Some 2 \<and>
   map_option timers
     (run alwaysWritable
        [Add (loginEntry ''a'' [200]) 1, ScheduleAsyncSave, Clear, SaveNow,
         Add (loginEntry ''b'' [200]) 2, ScheduleAsyncSave]
        (emptyStore (Stored []))) = Some 2"
proof -
  have general: "timers (saveNow fs s) = timers s \<and>
      logsFile (saveNow alwaysWritable s) = Stored (map Some (logs s)) \<and>
      \<not> saveScheduled (saveNow alwaysWritable s) \<and> \<not> savePending (saveNow alwaysWritable s)"
    by (simp add: saveNow_def writeFileSync_def alwaysWritable_def)
  have a: "map_option timers
     (run alwaysWritable [Add (loginEntry ''a'' [200]) 1, ScheduleAsyncSave, Clear, SaveNow]
        (emptyStore (Stored []))) = Some 1"
    by code_simp
  have b: "map_option saveScheduled
     (run alwaysWritable [Add (loginEntry ''a'' [200]) 1, ScheduleAsyncSave, Clear, SaveNow]
        (emptyStore (Stored []))) = Some False"
    by code_simp
  have c: "map_option writes
     (run alwaysWritable [Add (loginEntry ''a'' [200]) 1, ScheduleAsyncSave, Clear, SaveNow]
        (emptyStore (Stored []))) = Some 1"
    by code_simp
  have d: "map_option writes
     (run alwaysWritable
        [Add (loginEntry ''a'' [200]) 1, ScheduleAsyncSave, Clear, SaveNow, TimerFires]
        (emptyStore (Stored []))) = Some 2"
    by code_simp
  have e: "map_option timers
     (run alwaysWritable
        [Add (loginEntry ''a'' [200]) 1, ScheduleAsyncSave, Clear, SaveNow,
         Add (loginEntry ''b'' [200]) 2, ScheduleAsyncSave]
        (emptyStore (Stored []))) = Some 2"
    by code_simp
  show ?thesis
    using general a b c d e by blast
qed

section \<open>Loading at startup\<close>

lemma those_Some: "those (map Some xs) = Some xs"
  by (induction xs) simp_all

lemma those_None: "None \<in> set es \<Longrightarrow> those es = None"
  by (induction es) (auto split: option.splits)

lemma saveSync_cases:
  "saveSync fs s =
     (if fs (attempts s)
      then Returned (s\<lparr> logsFile := Stored (map Some (logs s)),
                        attempts := attempts s + 1, writes := writes s + 1 \<rparr>)
      else Threw (s\<lparr> attempts := attempts s + 1,
                     console := console s @ [ErrorSavingSync] \<rparr>))"
  by (simp add: saveSync_def writeFileSync_def)

lemma load_returns: "\<not> threw (load fs s)"
  by (simp add: load_def Let_def split: outcome.splits)

lemma load_absent:
  "logs (result (newLogStore fs Absent)) = [] \<and>
   fingerprintIndex (result (newLogStore fs Absent)) = Map.empty \<and>
   1 \<le> attempts (result (newLogStore fs Absent)) \<and>
   (fs 0 \<longrightarrow> logsFile (result (newLogStore fs Absent)) = Stored [] \<and>
             console (result (newLogStore fs Absent)) = [NotFoundCreating] \<and>
             attempts (result (newLogStore fs Absent)) = 1) \<and>
   (\<not> fs 0 \<and> fs 1 \<longrightarrow> logsFile (result (newLogStore fs Absent)) = Stored [] \<and>
             console (result (newLogStore fs Absent)) =
               [NotFoundCreating, ErrorSavingSync, ErrorLoading]) \<and>
   (\<not> fs 0 \<and> \<not> fs 1 \<longrightarrow> logsFile (result (newLogStore fs Absent)) = Absent \<and>
             console (result (newLogStore fs Absent)) =
               [NotFoundCreating, ErrorSavingSync, ErrorLoading, ErrorSavingSync,
                FailedToInitialize])"
  by (simp add: newLogStore_def load_def loadTry_def emptyStore_def saveSync_cases Let_def)

lemma load_thrown:
  assumes "loadTry fs (emptyStore d) = Threw (emptyStore d)"
  shows "logs (result (newLogStore fs d)) = [] \<and>
   fingerprintIndex (result (newLogStore fs d)) = Map.empty \<and>
   attempts (result (newLogStore fs d)) = 1 \<and>
   (fs 0 \<longrightarrow> logsFile (result (newLogStore fs d)) = Stored [] \<and>
             console (result (newLogStore fs d)) = [ErrorLoading]) \<and>
   (\<not> fs 0 \<longrightarrow> logsFile (result (newLogStore fs d)) = d \<and>
             console (result (newLogStore fs d)) =
               [ErrorLoading, ErrorSavingSync, FailedToInitialize])"
  using assms
  by (simp add: newLogStore_def load_def emptyStore_def saveSync_cases Let_def)

lemma load_not_array:
  "logs (result (newLogStore fs NotArray)) = [] \<and>
   attempts (result (newLogStore fs NotArray)) = 0 \<and>
   logsFile (result (newLogStore fs NotArray)) = NotArray \<and>
   console (result (newLogStore fs NotArray)) = [Loaded 0]"
  by (simp add: newLogStore_def load_def loadTry_def emptyStore_def)

lemma load_stored:
  "logs (result (newLogStore fs (Stored (map Some entries)))) = entries \<and>
   attempts (result (newLogStore fs (Stored (map Some entries)))) = 0 \<and>
   logsFile (result (newLogStore fs (Stored (map Some entries)))) = Stored (map Some entries) \<and>
   console (result (newLogStore fs (Stored (map Some entries)))) = [Loaded (length entries)]"
  by (simp add: newLogStore_def load_def loadTry_def emptyStore_def those_Some)

text \<open>
  C5, as stated, fails for a file that holds JSON other than an array: the store is empty
  in memory, but nothing is logged as an error (the message is the usual "Loaded 0
  logs"), no write is attempted and the file stays as it is.
\<close>

theorem load_not_array_counterexample:
  "\<not> threw (newLogStore alwaysWritable NotArray) \<and>
   logs (result (newLogStore alwaysWritable NotArray)) = [] \<and>
   attempts (result (newLogStore alwaysWritable NotArray)) = 0 \<and>
   logsFile (result (newLogStore alwaysWritable NotArray)) = NotArray \<and>
   console (result (newLogStore alwaysWritable NotArray)) = [Loaded 0]"
  using load_not_array [of alwaysWritable] load_returns [of alwaysWritable "emptyStore NotArray"]
  by (simp add: newLogStore_def)

text \<open>
  C5, amended. \<open>load\<close> never throws, whatever the file and whatever the file system does
  with the writes, so the constructor never fails.
  \<^item> File absent: the empty state is written synchronously; if that write throws, the
    handler logs the error and tries once more. When one of the two succeeds the file
    holds the empty array.
  \<^item> File unreadable or not JSON, or an array with a \<open>null\<close> element: the store is empty,
    the error is logged, and one write of the empty state is attempted.
  \<^item> File holding JSON that is not an array: the store is empty; no error is logged, no
    write is attempted, the file is left as it is.
  \<^item> File holding an array of entries: they are the store; nothing is written.
\<close>

theorem load_never_throws:
  "\<not> threw (load fs s) \<and> \<not> threw (newLogStore fs d) \<and>
   logs (result (newLogStore fs Absent)) = [] \<and>
   (fs 0 \<longrightarrow> logsFile (result (newLogStore fs Absent)) = Stored [] \<and>
             console (result (newLogStore fs Absent)) = [NotFoundCreating]) \<and>
   (\<not> fs 0 \<and> fs 1 \<longrightarrow> logsFile (result (newLogStore fs Absent)) = Stored []) \<and>
   (\<not> fs 0 \<and> \<not> fs 1 \<longrightarrow>
      logsFile (result (newLogStore fs Absent)) = Absent \<and>
      last (console (result (newLogStore fs Absent))) = FailedToInitialize) \<and>
   logs (result (newLogStore fs Unparseable)) = [] \<and>
   hd (console (result (newLogStore fs Unparseable))) = ErrorLoading \<and>
   attempts (result (newLogStore fs Unparseable)) = 1 \<and>
   (fs 0 \<longrightarrow> logsFile (result (newLogStore fs Unparseable)) = Stored []) \<and>
   (\<not> fs 0 \<longrightarrow> logsFile (result (newLogStore fs Unparseable)) = Unparseable \<and>
      last (console (result (newLogStore fs Unparseable))) = FailedToInitialize) \<and>
   (None \<in> set es \<longrightarrow>
      logs (result (newLogStore fs (Stored es))) = [] \<and>
      hd (console (result (newLogStore fs (Stored es)))) = ErrorLoading \<and>
      attempts (result (newLogStore fs (Stored es))) = 1 \<and>
      (fs 0 \<longrightarrow> logsFile (result (newLogStore fs (Stored es))) = Stored [])) \<and>
   logs (result (newLogStore fs NotArray)) = [] \<and>
   attempts (result (newLogStore fs NotArray)) = 0 \<and>
   logsFile (result (newLogStore fs NotArray)) = NotArray \<and>
   console (result (newLogStore fs NotArray)) = [Loaded 0] \<and>
   logs (result (newLogStore fs (Stored (map Some entries)))) = entries \<and>
   attempts (result (newLogStore fs (Stored (map Some entries)))) = 0"
proof -
  have u: "loadTry fs (emptyStore Unparseable) = Threw (emptyStore Unparseable)"
    by (simp add: loadTry_def emptyStore_def)
  have n: "loadTry fs (emptyStore (Stored es)) = Threw (emptyStore (Stored es))" if "None \<in> set es"
    using those_None [OF that] by (simp add: loadTry_def emptyStore_def)
  have a: "\<not> threw (load fs s)" "\<not> threw (newLogStore fs d)"
    by (simp_all add: newLogStore_def load_returns)
  have b: "None \<in> set es \<longrightarrow>
      logs (result (newLogStore fs (Stored es))) = [] \<and>
      hd (console (result (newLogStore fs (Stored es)))) = ErrorLoading \<and>
      attempts (result (newLogStore fs (Stored es))) = 1 \<and>
      (fs 0 \<longrightarrow> logsFile (result (newLogStore fs (Stored es))) = Stored [])"
  proof
    assume "None \<in> set es"
    from load_thrown [OF n [OF this]] show "logs (result (newLogStore fs (Stored es))) = [] \<and>
      hd (console (result (newLogStore fs (Stored es)))) = ErrorLoading \<and>
      attempts (result (newLogStore fs (Stored es))) = 1 \<and>
      (fs 0 \<longrightarrow> logsFile (result (newLogStore fs (Stored es))) = Stored [])"
      by (cases "fs 0") simp_all
  qed
  have c: "logs (result (newLogStore fs Unparseable)) = [] \<and>
   hd (console (result (newLogStore fs Unparseable))) = ErrorLoading \<and>
   attempts (result (newLogStore fs Unparseable)) = 1 \<and>
   (fs 0 \<longrightarrow> logsFile (result (newLogStore fs Unparseable)) = Stored []) \<and>
   (\<not> fs 0 \<longrightarrow> logsFile (result (newLogStore fs Unparseable)) = Unparseable \<and>
      last (console (result (newLogStore fs Unparseable))) = FailedToInitialize)"
    using load_thrown [OF u] by (cases "fs 0") simp_all
  have d: "logs (result (newLogStore fs Absent)) = [] \<and>
   (fs 0 \<longrightarrow> logsFile (result (newLogStore fs Absent)) = Stored [] \<and>
             console (result (newLogStore fs Absent)) = [NotFoundCreating]) \<and>
   (\<not> fs 0 \<and> fs 1 \<longrightarrow> logsFile (result (newLogStore fs Absent)) = Stored []) \<and>
   (\<not> fs 0 \<and> \<not> fs 1 \<longrightarrow>
      logsFile (result (newLogStore fs Absent)) = Absent \<and>
      last (console (result (newLogStore fs Absent))) = FailedToInitialize)"
    using load_absent [of fs] by (cases "fs 0"; cases "fs 1") simp_all
  show ?thesis
    using a b c d load_not_array [of fs] load_stored [of fs entries] by blast
qed

theorem load_never_throws_witness:
  "alwaysWritable 0 \<and>
   \<not> threw (newLogStore alwaysWritable Absent) \<and>
   logsFile (result (newLogStore alwaysWritable Absent)) = Stored [] \<and>
   logsFile (result (newLogStore alwaysWritable Unparseable)) = Stored [] \<and>
   None \<in> set [None :: log_entry option] \<and>
   logsFile (result (newLogStore alwaysWritable (Stored [None]))) = Stored [] \<and>
   logs (result (newLogStore alwaysWritable (Stored [None]))) = []"
proof -
  have w: "alwaysWritable 0" by (simp add: alwaysWritable_def)
  have m: "None \<in> set [None :: log_entry option]" by simp
  from load_never_throws [of alwaysWritable "emptyStore Absent" Absent "[None]" "[]"] w m
  show ?thesis by simp
qed


end
